theory Spec2Isabelle
  imports Main "HOL-Library.Word" "HOL-Library.Sublist"
begin

section \<open>The header \<^verbatim>\<open>anne_profiler.h\<close>\<close>

text \<open>
  The header is a list of five function declarations and nothing else. It is embedded as
  data: the C types that occur in it, and one record per declaration, in the order of the
  file.
  \<^verbatim>\<open>
  void* profiler_init();
  void profiler_deinit(void *profiler);
  void* profiler_scope_start(void *profiler, char *name);
  void profiler_scope_end(void *profiler, void *scope);
  int profiler_save(void *profiler, char *path);
  \<close>
\<close>

datatype ctype = C_void | C_int | C_char | C_ptr ctype

record fundecl =
  fd_ret :: ctype
  fd_name :: string
  fd_params :: "(ctype \<times> string) list"

definition anne_profiler_h :: "fundecl list" where
  "anne_profiler_h =
     [\<lparr>fd_ret = C_ptr C_void, fd_name = ''profiler_init'', fd_params = []\<rparr>,
      \<lparr>fd_ret = C_void, fd_name = ''profiler_deinit'',
         fd_params = [(C_ptr C_void, ''profiler'')]\<rparr>,
      \<lparr>fd_ret = C_ptr C_void, fd_name = ''profiler_scope_start'',
         fd_params = [(C_ptr C_void, ''profiler''), (C_ptr C_char, ''name'')]\<rparr>,
      \<lparr>fd_ret = C_void, fd_name = ''profiler_scope_end'',
         fd_params = [(C_ptr C_void, ''profiler''), (C_ptr C_void, ''scope'')]\<rparr>,
      \<lparr>fd_ret = C_int, fd_name = ''profiler_save'',
         fd_params = [(C_ptr C_void, ''profiler''), (C_ptr C_char, ''path'')]\<rparr>]"

text \<open>The signature of a declared function: its parameter types and its return type.\<close>

definition signature_of :: "fundecl list \<Rightarrow> string \<Rightarrow> (ctype list \<times> ctype) option" where
  "signature_of h n =
     map_option (\<lambda>d. (map fst (fd_params d), fd_ret d)) (find (\<lambda>d. fd_name d = n) h)"

text \<open>The names of the declarations of a header that return a given type.\<close>

definition returning :: "ctype \<Rightarrow> fundecl list \<Rightarrow> string list" where
  "returning t h = map fd_name (filter (\<lambda>d. fd_ret d = t) h)"


section \<open>Programs against the interface\<close>

text \<open>
  A \<^verbatim>\<open>void*\<close> is an opaque value to the caller: the model takes a natural number for
  it, \<open>0\<close> for \<^verbatim>\<open>NULL\<close>. A C \<^verbatim>\<open>int\<close> is a 32-bit word (read as signed by \<open>sint\<close>); a \<^verbatim>\<open>char*\<close>
  argument is the string it points to.
\<close>

type_synonym voidptr = nat
type_synonym c_int = "32 word"

definition NULL :: voidptr where
  "NULL = 0"

text \<open>One call of a function of the header, with the arguments it was given.\<close>

datatype call =
    Call_init
  | Call_deinit voidptr
  | Call_scope_start voidptr string
  | Call_scope_end voidptr voidptr
  | Call_save voidptr string

fun call_name :: "call \<Rightarrow> string" where
  "call_name Call_init = ''profiler_init''"
| "call_name (Call_deinit p) = ''profiler_deinit''"
| "call_name (Call_scope_start p n) = ''profiler_scope_start''"
| "call_name (Call_scope_end p s) = ''profiler_scope_end''"
| "call_name (Call_save p f) = ''profiler_save''"

text \<open>
  A client of the header is a tree of calls: each node is one call of a declared function,
  and what follows may depend on the value the call returned. The functions returning
  \<^verbatim>\<open>void\<close> have a single successor.
\<close>

datatype 'r prog =
    Return 'r
  | Do_init "voidptr \<Rightarrow> 'r prog"
  | Do_deinit voidptr "'r prog"
  | Do_scope_start voidptr string "voidptr \<Rightarrow> 'r prog"
  | Do_scope_end voidptr voidptr "'r prog"
  | Do_save voidptr string "c_int \<Rightarrow> 'r prog"

text \<open>
  The functions behind the header are not part of the C sources. A library is any
  implementation of the five functions over a state \<open>'w\<close> of its own. A call that does not
  come back (a crash, an abort, a loop) is \<open>None\<close>.
\<close>

record 'w library =
  lib_init :: "'w \<Rightarrow> (voidptr \<times> 'w) option"
  lib_deinit :: "voidptr \<Rightarrow> 'w \<Rightarrow> 'w option"
  lib_scope_start :: "voidptr \<Rightarrow> string \<Rightarrow> 'w \<Rightarrow> (voidptr \<times> 'w) option"
  lib_scope_end :: "voidptr \<Rightarrow> voidptr \<Rightarrow> 'w \<Rightarrow> 'w option"
  lib_save :: "voidptr \<Rightarrow> string \<Rightarrow> 'w \<Rightarrow> (c_int \<times> 'w) option"

text \<open>
  Running a client against a library, from a state of the library. The result is the list
  of the calls made, in order, and the value returned with the final state, or \<open>None\<close> when
  a call did not come back: the run stops there, and the call is the last of the list.
\<close>

primrec exec :: "'r prog \<Rightarrow> 'w library \<Rightarrow> 'w \<Rightarrow> call list \<times> ('r \<times> 'w) option" where
  "exec (Return r) L w = ([], Some (r, w))"
| "exec (Do_init k) L w =
     (case lib_init L w of
        None \<Rightarrow> ([Call_init], None)
      | Some (p, w') \<Rightarrow> (Call_init # fst (exec (k p) L w'), snd (exec (k p) L w')))"
| "exec (Do_deinit p k) L w =
     (case lib_deinit L p w of
        None \<Rightarrow> ([Call_deinit p], None)
      | Some w' \<Rightarrow> (Call_deinit p # fst (exec k L w'), snd (exec k L w')))"
| "exec (Do_scope_start p n k) L w =
     (case lib_scope_start L p n w of
        None \<Rightarrow> ([Call_scope_start p n], None)
      | Some (s, w') \<Rightarrow>
          (Call_scope_start p n # fst (exec (k s) L w'), snd (exec (k s) L w')))"
| "exec (Do_scope_end p s k) L w =
     (case lib_scope_end L p s w of
        None \<Rightarrow> ([Call_scope_end p s], None)
      | Some w' \<Rightarrow> (Call_scope_end p s # fst (exec k L w'), snd (exec k L w')))"
| "exec (Do_save p f k) L w =
     (case lib_save L p f w of
        None \<Rightarrow> ([Call_save p f], None)
      | Some (r, w') \<Rightarrow> (Call_save p f # fst (exec (k r) L w'), snd (exec (k r) L w')))"

definition calls_of :: "'r prog \<Rightarrow> 'w library \<Rightarrow> 'w \<Rightarrow> call list" where
  "calls_of c L w = fst (exec c L w)"

definition result_of :: "'r prog \<Rightarrow> 'w library \<Rightarrow> 'w \<Rightarrow> 'r option" where
  "result_of c L w = map_option fst (snd (exec c L w))"

text \<open>How many times a run called the function of a given name.\<close>

definition invocations :: "string \<Rightarrow> call list \<Rightarrow> nat" where
  "invocations n cs = length (filter (\<lambda>c. call_name c = n) cs)"


section \<open>The example \<^verbatim>\<open>src/test.c\<close>\<close>

text \<open>
  \<^verbatim>\<open>
  int main(int argc, char **argv) {
      void *profiler = profiler_init();

      void *scope = profiler_scope_start(profiler, "test_scope2");
      profiler_scope_end(profiler, scope);

      profiler_deinit(profiler);
      return 0;
  }
  \<close>
\<close>

definition main :: "c_int \<Rightarrow> string list \<Rightarrow> c_int prog" where
  "main argc argv =
     Do_init (\<lambda>profiler.
       Do_scope_start profiler ''test_scope2'' (\<lambda>scope.
         Do_scope_end profiler scope
           (Do_deinit profiler
              (Return 0))))"


section \<open>Two small libraries to run the example against\<close>

text \<open>
  \<open>null_library\<close> has no state and hands out \<^verbatim>\<open>NULL\<close> for every handle;
  \<open>counting_library\<close> numbers the handles it hands out. Every call of either returns.
\<close>

definition null_library :: "unit library" where
  "null_library =
     \<lparr>lib_init = (\<lambda>w. Some (NULL, w)),
      lib_deinit = (\<lambda>p w. Some w),
      lib_scope_start = (\<lambda>p n w. Some (NULL, w)),
      lib_scope_end = (\<lambda>p s w. Some w),
      lib_save = (\<lambda>p f w. Some (0, w))\<rparr>"

definition counting_library :: "nat library" where
  "counting_library =
     \<lparr>lib_init = (\<lambda>w. Some (Suc w, Suc w)),
      lib_deinit = (\<lambda>p w. Some w),
      lib_scope_start = (\<lambda>p n w. Some (Suc w, Suc w)),
      lib_scope_end = (\<lambda>p s w. Some w),
      lib_save = (\<lambda>p f w. Some (0, w))\<rparr>"


section \<open>The library behind the header\<close>

text \<open>
  The C sources hold the header and the example only; the five functions are implemented
  elsewhere in the repository. The definitions of this section follow the specification's
  description of them. Where the specification states no behaviour (a handle that is not a
  live profiler, ending a scope twice or through another profiler, releasing a profiler
  with a scope still open), the modelled call does not come back, so that nothing is
  promised there.
\<close>

text \<open>
  Modelled from the spec: the data behind the two opaque handles. A scope is "associated
  with a name" and "owned by the profiler that created it", and is "closed by
  profiler_scope_end"; a profiler "owns zero or more scopes".
\<close>

record scope =
  scope_owner :: voidptr
  scope_name :: string
  scope_ended :: bool

record world =
  profilers :: "voidptr list"
  scopes :: "(voidptr \<times> scope) list"

definition empty_world :: world where
  "empty_world = \<lparr>profilers = [], scopes = []\<rparr>"

definition handles :: "world \<Rightarrow> voidptr list" where
  "handles w = profilers w @ map fst (scopes w)"

text \<open>
  Modelled from the spec: the allocation of a handle, which no source file shows. A new
  handle is not \<^verbatim>\<open>NULL\<close> and differs from every handle in use.
\<close>

fun fresh_handle :: "voidptr list \<Rightarrow> voidptr" where
  "fresh_handle [] = Suc NULL"
| "fresh_handle (h # hs) = max (Suc h) (fresh_handle hs)"

text \<open>
  Modelled from the spec: the body of \<^verbatim>\<open>profiler_init\<close>, "initialize() -> opaque
  profiler handle. No stated failure mode."
\<close>

definition profiler_init :: "world \<Rightarrow> (voidptr \<times> world) option" where
  "profiler_init w =
     (let p = fresh_handle (handles w)
      in Some (p, w\<lparr>profilers := p # profilers w\<rparr>))"

text \<open>
  Modelled from the spec: the body of \<^verbatim>\<open>profiler_scope_start\<close>, "scope_start(profiler,
  name) -> opaque scope handle scoped to that profiler and that name. No constraint given
  on name uniqueness, nesting, or thread of call."
\<close>

definition profiler_scope_start :: "voidptr \<Rightarrow> string \<Rightarrow> world \<Rightarrow> (voidptr \<times> world) option" where
  "profiler_scope_start p n w =
     (if p \<in> set (profilers w)
      then (let s = fresh_handle (handles w)
            in Some (s, w\<lparr>scopes :=
                 (s, \<lparr>scope_owner = p, scope_name = n, scope_ended = False\<rparr>) # scopes w\<rparr>))
      else None)"

text \<open>
  Modelled from the spec: the body of \<^verbatim>\<open>profiler_scope_end\<close>, "scope_end(profiler, scope)
  -> no return value; presumably marks the scope's end boundary. No stated behavior for
  ending an already-ended scope or a scope from a different profiler."
\<close>

definition close_scope :: "voidptr \<Rightarrow> voidptr \<times> scope \<Rightarrow> voidptr \<times> scope" where
  "close_scope s e = (if fst e = s then (fst e, (snd e)\<lparr>scope_ended := True\<rparr>) else e)"

definition profiler_scope_end :: "voidptr \<Rightarrow> voidptr \<Rightarrow> world \<Rightarrow> world option" where
  "profiler_scope_end p s w =
     (case map_of (scopes w) s of
        None \<Rightarrow> None
      | Some sc \<Rightarrow>
          if p \<in> set (profilers w) \<and> scope_owner sc = p \<and> \<not> scope_ended sc
          then Some (w\<lparr>scopes := map (close_scope s) (scopes w)\<rparr>)
          else None)"

text \<open>
  Modelled from the spec: the body of \<^verbatim>\<open>profiler_deinit\<close>, "deinit(profiler) -> releases
  the profiler and any owned scopes. No stated behavior for in-flight (unended) scopes at
  deinit time."
\<close>

definition owned_by :: "voidptr \<Rightarrow> world \<Rightarrow> (voidptr \<times> scope) list" where
  "owned_by p w = filter (\<lambda>e. scope_owner (snd e) = p) (scopes w)"

definition profiler_deinit :: "voidptr \<Rightarrow> world \<Rightarrow> world option" where
  "profiler_deinit p w =
     (if p \<in> set (profilers w) \<and> list_all (\<lambda>e. scope_ended (snd e)) (owned_by p w)
      then Some \<lparr>profilers = removeAll p (profilers w),
                 scopes = filter (\<lambda>e. scope_owner (snd e) \<noteq> p) (scopes w)\<rparr>
      else None)"

text \<open>
  Modelled from the spec: the body of \<^verbatim>\<open>profiler_save\<close>, "save(profiler, path) -> integer
  status; presumably writes captured scope data to the given path. Format, encoding, and
  error codes are unspecified." The status is left open as the parameter \<open>status\<close>; the
  profilers and their scopes are read, not changed.
\<close>

definition profiler_save ::
  "(world \<Rightarrow> voidptr \<Rightarrow> string \<Rightarrow> c_int) \<Rightarrow> voidptr \<Rightarrow> string \<Rightarrow> world \<Rightarrow> (c_int \<times> world) option" where
  "profiler_save status p f w =
     (if p \<in> set (profilers w) then Some (status w p f, w) else None)"

definition profiler_library :: "(world \<Rightarrow> voidptr \<Rightarrow> string \<Rightarrow> c_int) \<Rightarrow> world library" where
  "profiler_library status =
     \<lparr>lib_init = profiler_init,
      lib_deinit = profiler_deinit,
      lib_scope_start = profiler_scope_start,
      lib_scope_end = profiler_scope_end,
      lib_save = profiler_save status\<rparr>"

text \<open>The effect of one call on the profilers and scopes, whatever it returns.\<close>

fun perform :: "(world \<Rightarrow> voidptr \<Rightarrow> string \<Rightarrow> c_int) \<Rightarrow> call \<Rightarrow> world \<Rightarrow> world option" where
  "perform status Call_init w = map_option snd (profiler_init w)"
| "perform status (Call_deinit p) w = profiler_deinit p w"
| "perform status (Call_scope_start p n) w = map_option snd (profiler_scope_start p n w)"
| "perform status (Call_scope_end p s) w = profiler_scope_end p s w"
| "perform status (Call_save p f) w = map_option snd (profiler_save status p f w)"

text \<open>
  The states the library keeps to: every scope is owned by a live profiler, and no handle
  stands for two scopes.
\<close>

definition owners_live :: "world \<Rightarrow> bool" where
  "owners_live w = list_all (\<lambda>e. scope_owner (snd e) \<in> set (profilers w)) (scopes w)"

definition wf_world :: "world \<Rightarrow> bool" where
  "wf_world w = (owners_live w \<and> distinct (map fst (scopes w)))"

text \<open>
  What one call may do to a scope \<open>s\<close> that existed before it, given what the handle
  stands for afterwards: the scope is gone only through the release of its profiler, after
  it was ended; otherwise its owner and its name are the same, and it went from open to
  ended only through \<^verbatim>\<open>profiler_scope_end\<close> on its owner and itself.
\<close>

definition scope_kept :: "call \<Rightarrow> voidptr \<Rightarrow> scope \<Rightarrow> scope option \<Rightarrow> bool" where
  "scope_kept c s sc after =
     (case after of
        None \<Rightarrow> c = Call_deinit (scope_owner sc) \<and> scope_ended sc
      | Some sc' \<Rightarrow>
          scope_owner sc' = scope_owner sc \<and> scope_name sc' = scope_name sc
          \<and> (scope_ended sc' = scope_ended sc
              \<or> c = Call_scope_end (scope_owner sc) s \<and> scope_ended sc'))"


section \<open>The declarations\<close>

text \<open>
  C1. The header declares exactly five functions, named \<^verbatim>\<open>profiler_init\<close>,
  \<^verbatim>\<open>profiler_scope_start\<close>, \<^verbatim>\<open>profiler_scope_end\<close>, \<^verbatim>\<open>profiler_deinit\<close> and
  \<^verbatim>\<open>profiler_save\<close>. \<^verbatim>\<open>profiler_init\<close> is declared with an empty parameter list and
  returns a \<^verbatim>\<open>void*\<close>; \<^verbatim>\<open>profiler_scope_start\<close> takes a \<^verbatim>\<open>void*\<close> and a \<^verbatim>\<open>char*\<close>
  and returns a \<^verbatim>\<open>void*\<close>; \<^verbatim>\<open>profiler_scope_end\<close> takes two \<^verbatim>\<open>void*\<close> and returns
  nothing; \<^verbatim>\<open>profiler_deinit\<close> takes a \<^verbatim>\<open>void*\<close> and returns nothing; \<^verbatim>\<open>profiler_save\<close>
  takes a \<^verbatim>\<open>void*\<close> and a \<^verbatim>\<open>char*\<close> and returns an \<^verbatim>\<open>int\<close>.
\<close>

theorem header_interface:
  "map fd_name anne_profiler_h =
     [''profiler_init'', ''profiler_deinit'', ''profiler_scope_start'',
      ''profiler_scope_end'', ''profiler_save'']
   \<and> distinct (map fd_name anne_profiler_h)
   \<and> length anne_profiler_h = 5
   \<and> signature_of anne_profiler_h ''profiler_init'' = Some ([], C_ptr C_void)
   \<and> signature_of anne_profiler_h ''profiler_scope_start'' =
       Some ([C_ptr C_void, C_ptr C_char], C_ptr C_void)
   \<and> signature_of anne_profiler_h ''profiler_scope_end'' =
       Some ([C_ptr C_void, C_ptr C_void], C_void)
   \<and> signature_of anne_profiler_h ''profiler_deinit'' = Some ([C_ptr C_void], C_void)
   \<and> signature_of anne_profiler_h ''profiler_save'' =
       Some ([C_ptr C_void, C_ptr C_char], C_int)"
  by (simp add: anne_profiler_h_def signature_of_def)

text \<open>
  C2. \<^verbatim>\<open>profiler_save\<close> is the only declared function that returns an \<^verbatim>\<open>int\<close>. Of the
  other four, \<^verbatim>\<open>profiler_init\<close> and \<^verbatim>\<open>profiler_scope_start\<close> return a handle
  (\<^verbatim>\<open>void*\<close>), and \<^verbatim>\<open>profiler_deinit\<close> and \<^verbatim>\<open>profiler_scope_end\<close> return nothing
  (\<^verbatim>\<open>void\<close>).
\<close>

theorem only_save_returns_int:
  "returning C_int anne_profiler_h = [''profiler_save'']
   \<and> returning (C_ptr C_void) anne_profiler_h = [''profiler_init'', ''profiler_scope_start'']
   \<and> returning C_void anne_profiler_h = [''profiler_deinit'', ''profiler_scope_end'']
   \<and> map fd_ret anne_profiler_h = [C_ptr C_void, C_void, C_ptr C_void, C_void, C_int]"
  by (simp add: anne_profiler_h_def returning_def)


section \<open>The example, against any library\<close>

text \<open>
  The run of \<open>main\<close>, spelled out: the call that does not come back, if there is one,
  decides where the run stops.
\<close>

lemma exec_main:
  "exec (main argc argv) L w =
     (case lib_init L w of
        None \<Rightarrow> ([Call_init], None)
      | Some (p, w1) \<Rightarrow>
          (case lib_scope_start L p ''test_scope2'' w1 of
             None \<Rightarrow> ([Call_init, Call_scope_start p ''test_scope2''], None)
           | Some (s, w2) \<Rightarrow>
               (case lib_scope_end L p s w2 of
                  None \<Rightarrow>
                    ([Call_init, Call_scope_start p ''test_scope2'', Call_scope_end p s], None)
                | Some w3 \<Rightarrow>
                    (case lib_deinit L p w3 of
                       None \<Rightarrow>
                         ([Call_init, Call_scope_start p ''test_scope2'', Call_scope_end p s,
                           Call_deinit p], None)
                     | Some w4 \<Rightarrow>
                         ([Call_init, Call_scope_start p ''test_scope2'', Call_scope_end p s,
                           Call_deinit p], Some (0, w4))))))"
  by (simp add: main_def split: option.split prod.split)

text \<open>
  C4. The example is sequential. In every run of \<open>main\<close> the calls made are an initial
  part of the sequence \<^verbatim>\<open>profiler_init\<close>, \<^verbatim>\<open>profiler_scope_start\<close>,
  \<^verbatim>\<open>profiler_scope_end\<close>, \<^verbatim>\<open>profiler_deinit\<close>; when each call returns, they are exactly
  that sequence, the profiler returned by \<^verbatim>\<open>profiler_init\<close> is the first argument of the
  three calls after it, and the scope returned by \<^verbatim>\<open>profiler_scope_start\<close> is the
  second argument of \<^verbatim>\<open>profiler_scope_end\<close>.
\<close>

theorem main_call_order:
  "(\<exists>p s. prefix (calls_of (main argc argv) L w)
            [Call_init, Call_scope_start p ''test_scope2'', Call_scope_end p s, Call_deinit p])
   \<and> (lib_init L w = Some (p, w1) \<and> lib_scope_start L p ''test_scope2'' w1 = Some (s, w2)
        \<and> lib_scope_end L p s w2 = Some w3 \<and> lib_deinit L p w3 = Some w4
      \<longrightarrow> calls_of (main argc argv) L w =
            [Call_init, Call_scope_start p ''test_scope2'', Call_scope_end p s, Call_deinit p])"
proof
  show "\<exists>p s. prefix (calls_of (main argc argv) L w)
            [Call_init, Call_scope_start p ''test_scope2'', Call_scope_end p s, Call_deinit p]"
    unfolding calls_of_def exec_main
    by (auto split: option.split)
next
  show "lib_init L w = Some (p, w1) \<and> lib_scope_start L p ''test_scope2'' w1 = Some (s, w2)
        \<and> lib_scope_end L p s w2 = Some w3 \<and> lib_deinit L p w3 = Some w4
      \<longrightarrow> calls_of (main argc argv) L w =
            [Call_init, Call_scope_start p ''test_scope2'', Call_scope_end p s, Call_deinit p]"
    by (simp add: calls_of_def exec_main)
qed

theorem main_call_order_witness:
  "calls_of (main 1 [''test'']) counting_library 0 =
     [Call_init, Call_scope_start 1 ''test_scope2'', Call_scope_end 1 2, Call_deinit 1]"
  using main_call_order [of 1 "[''test'']" counting_library 0 1 1 2 2 2 2]
  by (simp add: counting_library_def)

text \<open>
  C5, as amended. \<open>main\<close> never calls \<^verbatim>\<open>profiler_save\<close>. In every run in which each
  called function returns, each of \<^verbatim>\<open>profiler_init\<close>, \<^verbatim>\<open>profiler_scope_start\<close>,
  \<^verbatim>\<open>profiler_scope_end\<close> and \<^verbatim>\<open>profiler_deinit\<close> is called exactly once.
\<close>

theorem main_invocations:
  "invocations ''profiler_save'' (calls_of (main argc argv) L w) = 0
   \<and> (result_of (main argc argv) L w \<noteq> None \<longrightarrow>
        invocations ''profiler_init'' (calls_of (main argc argv) L w) = 1
      \<and> invocations ''profiler_scope_start'' (calls_of (main argc argv) L w) = 1
      \<and> invocations ''profiler_scope_end'' (calls_of (main argc argv) L w) = 1
      \<and> invocations ''profiler_deinit'' (calls_of (main argc argv) L w) = 1)"
  by (simp add: calls_of_def result_of_def exec_main invocations_def
      split: option.split prod.split)

theorem main_invocations_witness:
  "result_of (main 1 [''test'']) counting_library 0 \<noteq> None
   \<and> invocations ''profiler_save'' (calls_of (main 1 [''test'']) counting_library 0) = 0
   \<and> invocations ''profiler_init'' (calls_of (main 1 [''test'']) counting_library 0) = 1
   \<and> invocations ''profiler_scope_start'' (calls_of (main 1 [''test'']) counting_library 0) = 1
   \<and> invocations ''profiler_scope_end'' (calls_of (main 1 [''test'']) counting_library 0) = 1
   \<and> invocations ''profiler_deinit'' (calls_of (main 1 [''test'']) counting_library 0) = 1"
proof -
  have r: "result_of (main 1 [''test'']) counting_library 0 \<noteq> None"
    by (simp add: result_of_def exec_main counting_library_def)
  from r main_invocations [of 1 "[''test'']" counting_library 0] show ?thesis
    by blast
qed

text \<open>
  C5, as stated, fails: in a run of the example that reaches \<^verbatim>\<open>return 0\<close>, the number of
  calls of \<^verbatim>\<open>profiler_save\<close> is zero, so it is not true that each of the five declared
  functions is called once.
\<close>

theorem main_invokes_all_five_counterexample:
  "invocations ''profiler_save'' (calls_of (main 1 [''test'']) counting_library 0) = 0
   \<and> result_of (main 1 [''test'']) counting_library 0 = Some 0
   \<and> \<not> list_all (\<lambda>n. invocations n (calls_of (main 1 [''test'']) counting_library 0) = 1)
         (map fd_name anne_profiler_h)"
  by (simp add: calls_of_def result_of_def exec_main counting_library_def invocations_def
      anne_profiler_h_def)

text \<open>
  C8. Whatever \<^verbatim>\<open>argc\<close> and \<^verbatim>\<open>argv\<close> are, when each of the four calls of \<open>main\<close>
  returns, \<open>main\<close> returns \<open>0\<close>.
\<close>

theorem main_returns_zero:
  assumes "lib_init L w = Some (p, w1)"
    and "lib_scope_start L p ''test_scope2'' w1 = Some (s, w2)"
    and "lib_scope_end L p s w2 = Some w3"
    and "lib_deinit L p w3 = Some w4"
  shows "snd (exec (main argc argv) L w) = Some (0, w4) \<and> result_of (main argc argv) L w = Some 0"
  using assms by (simp add: result_of_def exec_main)

theorem main_returns_zero_witness:
  "result_of (main 3 [''test'', ''-v'', ''out'']) counting_library 5 = Some 0
   \<and> snd (exec (main 3 [''test'', ''-v'', ''out'']) counting_library 5) = Some (0, 7)"
proof -
  have i: "lib_init counting_library 5 = Some (6, 6)"
    by (simp add: counting_library_def)
  have s: "lib_scope_start counting_library 6 ''test_scope2'' 6 = Some (7, 7)"
    by (simp add: counting_library_def)
  have e: "lib_scope_end counting_library 6 7 7 = Some 7"
    by (simp add: counting_library_def)
  have d: "lib_deinit counting_library 6 7 = Some 7"
    by (simp add: counting_library_def)
  from main_returns_zero [OF i s e d] show ?thesis
    by simp
qed

text \<open>
  C9. \<open>main\<close> does not read its arguments: for any two argument vectors the program is the
  same, and so are, against any library and from any state of it, the calls made, their
  arguments, and the value returned.
\<close>

theorem main_ignores_arguments:
  "main argc argv = main argc' argv'
   \<and> exec (main argc argv) L w = exec (main argc' argv') L w"
  by (simp add: main_def)

text \<open>
  C10. \<open>main\<close> checks no returned handle. Whatever \<^verbatim>\<open>profiler_init\<close> returns,
  \<^verbatim>\<open>NULL\<close> included, is the profiler argument of the call of \<^verbatim>\<open>profiler_scope_start\<close>
  that follows, and of the calls of \<^verbatim>\<open>profiler_scope_end\<close> and \<^verbatim>\<open>profiler_deinit\<close>;
  whatever \<^verbatim>\<open>profiler_scope_start\<close> returns, \<^verbatim>\<open>NULL\<close> included, is the scope argument
  of \<^verbatim>\<open>profiler_scope_end\<close>.
\<close>

theorem main_forwards_handles:
  assumes "lib_init L w = Some (p, w1)"
  shows "take 2 (calls_of (main argc argv) L w) = [Call_init, Call_scope_start p ''test_scope2'']
    \<and> (lib_scope_start L p ''test_scope2'' w1 = Some (s, w2) \<longrightarrow>
         take 3 (calls_of (main argc argv) L w) =
           [Call_init, Call_scope_start p ''test_scope2'', Call_scope_end p s]
       \<and> (lib_scope_end L p s w2 = Some w3 \<longrightarrow>
            calls_of (main argc argv) L w =
              [Call_init, Call_scope_start p ''test_scope2'', Call_scope_end p s,
               Call_deinit p]))"
  using assms by (simp add: calls_of_def exec_main split: option.split prod.split)

theorem main_forwards_handles_witness:
  "lib_init null_library () = Some (NULL, ())
   \<and> lib_scope_start null_library NULL ''test_scope2'' () = Some (NULL, ())
   \<and> calls_of (main 1 [''test'']) null_library () =
       [Call_init, Call_scope_start NULL ''test_scope2'', Call_scope_end NULL NULL,
        Call_deinit NULL]"
proof -
  have i: "lib_init null_library () = Some (NULL, ())"
    by (simp add: null_library_def)
  have s: "lib_scope_start null_library NULL ''test_scope2'' () = Some (NULL, ())"
    by (simp add: null_library_def)
  have e: "lib_scope_end null_library NULL NULL () = Some ()"
    by (simp add: null_library_def)
  from main_forwards_handles [OF i, of 1 "[''test'']" NULL "()" "()"] s e i
  show ?thesis by simp
qed


section \<open>The modelled library\<close>

subsection \<open>Handles\<close>

lemma fresh_handle_greater: "h \<in> set hs \<Longrightarrow> h < fresh_handle hs"
  by (induction hs) auto

lemma fresh_handle_new: "fresh_handle hs \<notin> set hs"
  using fresh_handle_greater [of "fresh_handle hs" hs] by auto

lemma fresh_handle_not_NULL: "fresh_handle hs \<noteq> NULL"
  by (induction hs) (auto simp: NULL_def max_def)

subsection \<open>Looking a scope up after a call\<close>

lemma map_of_close_scope:
  "map_of (map (close_scope s) xs) k =
     map_option (\<lambda>sc. if k = s then sc\<lparr>scope_ended := True\<rparr> else sc) (map_of xs k)"
  by (induction xs) (auto simp: close_scope_def)

lemma fst_close_scope: "fst (close_scope s e) = fst e"
  by (simp add: close_scope_def)

lemma owner_close_scope: "scope_owner (snd (close_scope s e)) = scope_owner (snd e)"
  by (simp add: close_scope_def)

lemma close_scope_absent:
  "s \<notin> fst ` set xs \<Longrightarrow> map (close_scope s) xs = xs"
  by (induction xs) (auto simp: close_scope_def)

lemma map_of_filter_snd:
  "distinct (map fst xs) \<Longrightarrow>
   map_of (filter (\<lambda>e. P (snd e)) xs) k =
     (case map_of xs k of None \<Rightarrow> None | Some v \<Rightarrow> if P v then Some v else None)"
proof (induction xs)
  case Nil
  then show ?case by simp
next
  case (Cons x xs)
  obtain a b where x: "x = (a, b)" by (cases x)
  from Cons.prems x have notin: "a \<notin> fst ` set xs" by simp
  then have none: "map_of xs a = None" by (simp add: map_of_eq_None_iff)
  from Cons show ?case
    by (auto simp: x none split: option.split)
qed

lemma scope_owner_live:
  "owners_live w \<Longrightarrow> map_of (scopes w) s = Some sc \<Longrightarrow> scope_owner sc \<in> set (profilers w)"
  by (auto simp: owners_live_def list_all_iff dest!: map_of_SomeD)

lemma filter_owner_absent:
  "owners_live w \<Longrightarrow> p \<notin> set (profilers w) \<Longrightarrow>
   filter (\<lambda>e. scope_owner (snd e) \<noteq> p) (scopes w) = scopes w
   \<and> filter (\<lambda>e. scope_owner (snd e) = p) (scopes w) = []"
  by (auto simp: owners_live_def list_all_iff filter_empty_conv intro!: filter_True)

subsection \<open>The states the library keeps to\<close>

lemma wf_profiler_init:
  "wf_world w \<Longrightarrow> profiler_init w = Some (p, w') \<Longrightarrow> wf_world w'"
  by (fastforce simp: wf_world_def owners_live_def profiler_init_def Let_def list_all_iff)

lemma wf_profiler_scope_start:
  assumes "wf_world w" and "profiler_scope_start p n w = Some (s, w')"
  shows "wf_world w'"
proof -
  from assms(2) have live: "p \<in> set (profilers w)"
    and w': "w' = w\<lparr>scopes := (fresh_handle (handles w),
        \<lparr>scope_owner = p, scope_name = n, scope_ended = False\<rparr>) # scopes w\<rparr>"
    by (auto simp: profiler_scope_start_def Let_def split: if_splits)
  have "fresh_handle (handles w) \<notin> set (handles w)" by (rule fresh_handle_new)
  then have "fresh_handle (handles w) \<notin> fst ` set (scopes w)"
    by (simp add: handles_def)
  with assms(1) live show ?thesis
    by (simp add: wf_world_def owners_live_def w')
qed

lemma wf_profiler_scope_end:
  assumes "wf_world w" and "profiler_scope_end p s w = Some w'"
  shows "wf_world w'"
proof -
  from assms(2) have w': "w' = w\<lparr>scopes := map (close_scope s) (scopes w)\<rparr>"
    by (auto simp: profiler_scope_end_def split: option.splits if_splits)
  from assms(1) show ?thesis
    by (simp add: wf_world_def owners_live_def w' list_all_iff comp_def
        fst_close_scope owner_close_scope)
qed

lemma wf_profiler_deinit:
  assumes "wf_world w" and "profiler_deinit p w = Some w'"
  shows "wf_world w'"
proof -
  from assms(2) have w': "w' = \<lparr>profilers = removeAll p (profilers w),
                 scopes = filter (\<lambda>e. scope_owner (snd e) \<noteq> p) (scopes w)\<rparr>"
    by (auto simp: profiler_deinit_def split: if_splits)
  from assms(1) show ?thesis
    by (auto simp: wf_world_def owners_live_def w' list_all_iff distinct_map_filter)
qed

lemma wf_perform:
  "wf_world w \<Longrightarrow> perform status c w = Some w' \<Longrightarrow> wf_world w'"
  by (cases c)
     (auto simp: profiler_save_def split: if_splits
           dest: wf_profiler_init wf_profiler_scope_start wf_profiler_scope_end
                 wf_profiler_deinit)

subsection \<open>Scopes across one call\<close>

lemma kept_scope_start:
  assumes "profiler_scope_start p n w = Some (s0, w')" and "map_of (scopes w) s = Some sc"
  shows "scope_kept (Call_scope_start p n) s sc (map_of (scopes w') s)"
proof -
  from assms(1) have w': "scopes w' = (fresh_handle (handles w),
        \<lparr>scope_owner = p, scope_name = n, scope_ended = False\<rparr>) # scopes w"
    by (auto simp: profiler_scope_start_def Let_def split: if_splits)
  from assms(2) have "s \<in> set (handles w)"
    by (auto simp: handles_def dest!: map_of_SomeD intro: rev_image_eqI)
  with fresh_handle_new [of "handles w"] have "s \<noteq> fresh_handle (handles w)"
    by auto
  with assms(2) show ?thesis
    by (simp add: scope_kept_def w')
qed

lemma kept_scope_end:
  assumes "profiler_scope_end p s0 w = Some w'" and "map_of (scopes w) s = Some sc"
  shows "scope_kept (Call_scope_end p s0) s sc (map_of (scopes w') s)"
  using assms
  by (auto simp: profiler_scope_end_def scope_kept_def map_of_close_scope
      split: option.splits if_splits)

lemma kept_deinit:
  assumes "wf_world w" and "profiler_deinit p w = Some w'" and "map_of (scopes w) s = Some sc"
  shows "scope_kept (Call_deinit p) s sc (map_of (scopes w') s)"
proof -
  from assms(2) have w': "scopes w' = filter (\<lambda>e. scope_owner (snd e) \<noteq> p) (scopes w)"
    and ended: "list_all (\<lambda>e. scope_ended (snd e)) (owned_by p w)"
    by (auto simp: profiler_deinit_def split: if_splits)
  from assms(1) have d: "distinct (map fst (scopes w))"
    by (simp add: wf_world_def)
  from assms(3) have "(s, sc) \<in> set (scopes w)"
    by (rule map_of_SomeD)
  with ended have "scope_owner sc = p \<Longrightarrow> scope_ended sc"
    by (auto simp: owned_by_def list_all_iff)
  with assms(3) show ?thesis
    by (auto simp: scope_kept_def w' map_of_filter_snd [OF d, of "\<lambda>v. scope_owner v \<noteq> p"])
qed

lemma kept_perform:
  assumes "wf_world w" and "perform status c w = Some w'" and "map_of (scopes w) s = Some sc"
  shows "scope_kept c s sc (map_of (scopes w') s)"
proof (cases c)
  case Call_init
  with assms(2,3) show ?thesis
    by (auto simp: profiler_init_def Let_def scope_kept_def)
next
  case (Call_deinit p)
  with assms show ?thesis
    by (simp add: kept_deinit)
next
  case (Call_scope_start p n)
  with assms show ?thesis
    by (auto simp: kept_scope_start)
next
  case (Call_scope_end p s0)
  with assms show ?thesis
    by (simp add: kept_scope_end)
next
  case (Call_save p f)
  with assms(2,3) show ?thesis
    by (auto simp: profiler_save_def scope_kept_def split: if_splits)
qed

lemma new_scope_perform:
  assumes "perform status c w = Some w'" and "map_of (scopes w) s = None"
    and "map_of (scopes w') s = Some sc'"
  shows "c = Call_scope_start (scope_owner sc') (scope_name sc') \<and> \<not> scope_ended sc'"
proof (cases c)
  case Call_init
  with assms show ?thesis
    by (auto simp: profiler_init_def Let_def)
next
  case (Call_deinit p)
  with assms(1) have "scopes w' = filter (\<lambda>e. scope_owner (snd e) \<noteq> p) (scopes w)"
    by (auto simp: profiler_deinit_def split: if_splits)
  with assms(3) have "s \<in> fst ` set (scopes w)"
    by (auto dest!: map_of_SomeD intro: rev_image_eqI)
  with assms(2) show ?thesis
    by (simp add: map_of_eq_None_iff)
next
  case (Call_scope_start p n)
  with assms show ?thesis
    by (auto simp: profiler_scope_start_def Let_def split: if_splits)
next
  case (Call_scope_end p s0)
  with assms show ?thesis
    by (auto simp: profiler_scope_end_def map_of_close_scope split: option.splits if_splits)
next
  case (Call_save p f)
  with assms show ?thesis
    by (auto simp: profiler_save_def split: if_splits)
qed

subsection \<open>The claims about the library\<close>

text \<open>
  C3. Against the modelled library, from any state it keeps to, the example runs to
  completion: \<^verbatim>\<open>profiler_init\<close>, \<^verbatim>\<open>profiler_scope_start\<close> on the returned profiler,
  \<^verbatim>\<open>profiler_scope_end\<close> on that profiler and the returned scope, and
  \<^verbatim>\<open>profiler_deinit\<close> on that profiler all return, \<open>main\<close> returns \<open>0\<close>, and the library
  is back in the state it started from.
\<close>

theorem example_runs_to_completion:
  assumes "wf_world w"
  shows "snd (exec (main argc argv) (profiler_library status) w) = Some (0, w)
    \<and> result_of (main argc argv) (profiler_library status) w = Some 0"
proof -
  define p where "p = fresh_handle (handles w)"
  define w1 where "w1 = w\<lparr>profilers := p # profilers w\<rparr>"
  define s where "s = fresh_handle (handles w1)"
  define sc where "sc = \<lparr>scope_owner = p, scope_name = ''test_scope2'', scope_ended = False\<rparr>"
  define w2 where "w2 = w1\<lparr>scopes := (s, sc) # scopes w1\<rparr>"
  define w3 where "w3 = w2\<lparr>scopes := map (close_scope s) (scopes w2)\<rparr>"
  from assms have live: "owners_live w"
    by (simp add: wf_world_def)
  have p_new: "p \<notin> set (profilers w)"
    using fresh_handle_new [of "handles w"] by (simp add: p_def handles_def)
  have s_new: "s \<notin> fst ` set (scopes w)"
    using fresh_handle_new [of "handles w1"] by (simp add: s_def handles_def w1_def)
  have i: "profiler_init w = Some (p, w1)"
    by (simp add: profiler_init_def Let_def p_def w1_def)
  have st: "profiler_scope_start p ''test_scope2'' w1 = Some (s, w2)"
    by (simp add: profiler_scope_start_def Let_def w1_def w2_def s_def sc_def)
  have e: "profiler_scope_end p s w2 = Some w3"
    by (simp add: profiler_scope_end_def w1_def w2_def w3_def sc_def)
  have scopes3: "scopes w3 = (s, sc\<lparr>scope_ended := True\<rparr>) # scopes w"
    using close_scope_absent [OF s_new]
    by (simp add: w3_def w2_def w1_def close_scope_def)
  have profilers3: "profilers w3 = p # profilers w"
    by (simp add: w3_def w2_def w1_def)
  have d: "profiler_deinit p w3 = Some w"
    using filter_owner_absent [OF live p_new] p_new
    by (simp add: profiler_deinit_def owned_by_def scopes3 profilers3 sc_def)
  from i st e d show ?thesis
    by (simp add: result_of_def exec_main profiler_library_def)
qed

theorem example_runs_to_completion_witness:
  "wf_world empty_world
   \<and> snd (exec (main 1 [''test'']) (profiler_library (\<lambda>w p f. 0)) empty_world)
       = Some (0, empty_world)
   \<and> calls_of (main 1 [''test'']) (profiler_library (\<lambda>w p f. 0)) empty_world =
       [Call_init, Call_scope_start 1 ''test_scope2'', Call_scope_end 1 2, Call_deinit 1]"
proof -
  have wf: "wf_world empty_world"
    by (simp add: wf_world_def owners_live_def empty_world_def)
  have calls: "calls_of (main 1 [''test'']) (profiler_library (\<lambda>w p f. 0)) empty_world =
       [Call_init, Call_scope_start 1 ''test_scope2'', Call_scope_end 1 2, Call_deinit 1]"
    by (simp add: calls_of_def exec_main profiler_library_def empty_world_def
        profiler_init_def profiler_scope_start_def profiler_scope_end_def profiler_deinit_def
        Let_def handles_def NULL_def owned_by_def close_scope_def)
  from wf calls example_runs_to_completion [OF wf, of 1 "[''test'']" "\<lambda>w p f. 0"]
  show ?thesis by simp
qed

text \<open>
  C6. Given a live profiler and any name, \<^verbatim>\<open>profiler_scope_start\<close> returns a new scope
  handle, not \<^verbatim>\<open>NULL\<close>, that stands for an open scope of that profiler and that name. The
  state is otherwise arbitrary: the name may be in use and other scopes may be open.
\<close>

theorem scope_start_returns_handle:
  assumes "p \<in> set (profilers w)"
  shows "\<exists>s w'. profiler_scope_start p n w = Some (s, w')
    \<and> s \<noteq> NULL \<and> s \<notin> set (handles w)
    \<and> map_of (scopes w') s = Some \<lparr>scope_owner = p, scope_name = n, scope_ended = False\<rparr>
    \<and> profilers w' = profilers w
    \<and> scopes w' = (s, \<lparr>scope_owner = p, scope_name = n, scope_ended = False\<rparr>) # scopes w"
  using assms fresh_handle_new [of "handles w"] fresh_handle_not_NULL [of "handles w"]
  by (simp add: profiler_scope_start_def Let_def)

theorem scope_start_returns_handle_witness:
  "1 \<in> set (profilers \<lparr>profilers = [1], scopes =
        [(2, \<lparr>scope_owner = 1, scope_name = ''a'', scope_ended = False\<rparr>)]\<rparr>)
   \<and> (\<exists>s w'. profiler_scope_start 1 ''a'' \<lparr>profilers = [1], scopes =
        [(2, \<lparr>scope_owner = 1, scope_name = ''a'', scope_ended = False\<rparr>)]\<rparr> = Some (s, w')
      \<and> map_of (scopes w') s = Some \<lparr>scope_owner = 1, scope_name = ''a'', scope_ended = False\<rparr>
      \<and> s \<noteq> 2)"
proof -
  let ?w = "\<lparr>profilers = [1], scopes =
        [(2, \<lparr>scope_owner = 1, scope_name = ''a'', scope_ended = False\<rparr>)]\<rparr>"
  have live: "1 \<in> set (profilers ?w)" by simp
  from scope_start_returns_handle [OF live, of "''a''"]
  obtain s w' where "profiler_scope_start 1 ''a'' ?w = Some (s, w')"
    and "s \<notin> set (handles ?w)"
    and "map_of (scopes w') s = Some \<lparr>scope_owner = 1, scope_name = ''a'', scope_ended = False\<rparr>"
    by blast
  moreover from this have "s \<noteq> 2" by (auto simp: handles_def)
  ultimately show ?thesis using live by blast
qed

text \<open>
  C7. Every call of the interface that returns keeps the library's states, in which every
  scope is owned by a live profiler. A scope that exists before and after the call has the
  same owner and the same name, and has gone from open to ended only through
  \<^verbatim>\<open>profiler_scope_end\<close> on its owner; a scope that is gone was ended and its owner was
  released; a scope that is new was created by \<^verbatim>\<open>profiler_scope_start\<close> on its owner
  and is open.
\<close>

theorem scope_ownership_preserved:
  assumes "wf_world w" and "perform status c w = Some w'"
  shows "wf_world w'
    \<and> (\<forall>s sc. map_of (scopes w) s = Some sc \<longrightarrow> scope_kept c s sc (map_of (scopes w') s))
    \<and> (\<forall>s sc'. map_of (scopes w) s = None \<and> map_of (scopes w') s = Some sc' \<longrightarrow>
          c = Call_scope_start (scope_owner sc') (scope_name sc') \<and> \<not> scope_ended sc')
    \<and> (\<forall>s sc'. map_of (scopes w') s = Some sc' \<longrightarrow> scope_owner sc' \<in> set (profilers w'))"
proof (intro conjI allI impI)
  show wf': "wf_world w'"
    using assms by (rule wf_perform)
  show "scope_kept c s sc (map_of (scopes w') s)" if "map_of (scopes w) s = Some sc" for s sc
    using assms that by (rule kept_perform)
  show "c = Call_scope_start (scope_owner sc') (scope_name sc')"
    if "map_of (scopes w) s = None \<and> map_of (scopes w') s = Some sc'" for s sc'
    using new_scope_perform [OF assms(2)] that by blast
  show "\<not> scope_ended sc'"
    if "map_of (scopes w) s = None \<and> map_of (scopes w') s = Some sc'" for s sc'
    using new_scope_perform [OF assms(2)] that by blast
  show "scope_owner sc' \<in> set (profilers w')" if "map_of (scopes w') s = Some sc'" for s sc'
    using wf' that by (auto simp: wf_world_def intro: scope_owner_live)
qed

theorem scope_ownership_preserved_witness:
  "wf_world \<lparr>profilers = [1], scopes =
       [(2, \<lparr>scope_owner = 1, scope_name = ''a'', scope_ended = False\<rparr>)]\<rparr>
   \<and> perform (\<lambda>w p f. 0) (Call_scope_end 1 2) \<lparr>profilers = [1], scopes =
       [(2, \<lparr>scope_owner = 1, scope_name = ''a'', scope_ended = False\<rparr>)]\<rparr>
     = Some \<lparr>profilers = [1], scopes =
       [(2, \<lparr>scope_owner = 1, scope_name = ''a'', scope_ended = True\<rparr>)]\<rparr>
   \<and> wf_world \<lparr>profilers = [1], scopes =
       [(2, \<lparr>scope_owner = 1, scope_name = ''a'', scope_ended = True\<rparr>)]\<rparr>
   \<and> scope_kept (Call_scope_end 1 2) 2
       \<lparr>scope_owner = 1, scope_name = ''a'', scope_ended = False\<rparr>
       (Some \<lparr>scope_owner = 1, scope_name = ''a'', scope_ended = True\<rparr>)"
proof -
  let ?w = "\<lparr>profilers = [1], scopes =
       [(2, \<lparr>scope_owner = 1, scope_name = ''a'', scope_ended = False\<rparr>)]\<rparr>"
  let ?w' = "\<lparr>profilers = [1], scopes =
       [(2, \<lparr>scope_owner = 1, scope_name = ''a'', scope_ended = True\<rparr>)]\<rparr>"
  have wf: "wf_world ?w"
    by (simp add: wf_world_def owners_live_def)
  have step: "perform (\<lambda>w p f. 0) (Call_scope_end 1 2) ?w = Some ?w'"
    by (simp add: profiler_scope_end_def close_scope_def)
  from scope_ownership_preserved [OF wf step]
  have wf': "wf_world ?w'"
    and every: "\<forall>s sc. map_of (scopes ?w) s = Some sc \<longrightarrow>
           scope_kept (Call_scope_end 1 2) s sc (map_of (scopes ?w') s)"
    by blast+
  have before: "map_of (scopes ?w) 2 =
      Some \<lparr>scope_owner = 1, scope_name = ''a'', scope_ended = False\<rparr>"
    by simp
  from every before
  have "scope_kept (Call_scope_end 1 2) 2
      \<lparr>scope_owner = 1, scope_name = ''a'', scope_ended = False\<rparr> (map_of (scopes ?w') 2)"
    by blast
  then have kept: "scope_kept (Call_scope_end 1 2) 2
      \<lparr>scope_owner = 1, scope_name = ''a'', scope_ended = False\<rparr>
      (Some \<lparr>scope_owner = 1, scope_name = ''a'', scope_ended = True\<rparr>)"
    by simp
  from wf step wf' kept show ?thesis
    by (intro conjI)
qed

end
